theory Spec2Isabelle
  imports Main "HOL-Library.AList"
begin

section \<open>Python strings and clock readings\<close>

text \<open>
  A Python \<open>str\<close> is modelled as a \<open>string\<close> whose characters are read as the code
  points 0..255. On that range \<open>str.isspace\<close> holds for TAB..CR, FS..US, SPACE,
  NEL (0x85) and NBSP (0xA0), and \<open>str.lower\<close> shifts A..Z and the Latin-1 capitals
  0xC0..0xDE (without the multiplication sign 0xD7) by 32.
\<close>

definition py_isspace :: "char \<Rightarrow> bool" where
  "py_isspace c = (let n = (of_char c :: nat) in
     (9 \<le> n \<and> n \<le> 13) \<or> (28 \<le> n \<and> n \<le> 32) \<or> n = 133 \<or> n = 160)"

definition py_lower_char :: "char \<Rightarrow> char" where
  "py_lower_char c = (let n = (of_char c :: nat) in
     if (65 \<le> n \<and> n \<le> 90) \<or> (192 \<le> n \<and> n \<le> 222 \<and> n \<noteq> 215)
     then char_of (n + 32) else c)"

definition py_lower :: "string \<Rightarrow> string" where
  "py_lower s = map py_lower_char s"

definition py_strip :: "string \<Rightarrow> string" where
  "py_strip s = rev (dropWhile py_isspace (rev (dropWhile py_isspace s)))"

text \<open>
  \<open>datetime.now()\<close> is an explicit argument of every operation that reads the clock:
  a reading is an integer number of microseconds (the resolution of \<open>datetime\<close>), and
  \<open>timedelta(seconds=n)\<close> is \<open>n * 1000000\<close> of them. Readings and durations are taken
  to lie inside the range of \<open>datetime\<close> and \<open>timedelta\<close>.
\<close>

type_synonym datetime = int
type_synonym timedelta = int

definition timedelta_seconds :: "int \<Rightarrow> timedelta" where
  "timedelta_seconds n = n * 1000000"

datatype py_error = ValueError | IndexError

text \<open>\<open>w in s\<close> on strings: \<open>w\<close> occurs in \<open>s\<close> as a contiguous run.\<close>

fun starts_with :: "string \<Rightarrow> string \<Rightarrow> bool" where
  "starts_with s [] = True"
| "starts_with [] (a # w) = False"
| "starts_with (c # s) (a # w) = (c = a \<and> starts_with s w)"

fun py_in :: "string \<Rightarrow> string \<Rightarrow> bool" where
  "py_in w [] = (w = [])"
| "py_in w (c # cs) = (starts_with (c # cs) w \<or> py_in w cs)"

text \<open>\<open>str.split()\<close> without argument: the maximal runs of non-whitespace characters.\<close>

fun split_aux :: "string \<Rightarrow> string \<Rightarrow> string list" where
  "split_aux w [] = (if w = [] then [] else [rev w])"
| "split_aux w (c # cs) =
     (if py_isspace c then (if w = [] then split_aux [] cs else rev w # split_aux [] cs)
      else split_aux (c # w) cs)"

definition py_split :: "string \<Rightarrow> string list" where
  "py_split s = split_aux [] s"

text \<open>
  \<open>int(s)\<close> on a token without whitespace: an optional sign, then decimal digits in
  groups separated by single underscores; anything else is a \<open>ValueError\<close> (\<open>None\<close>),
  as is a literal of more than 4300 digits (the default limit of CPython 3.11 on
  string-to-integer conversion).
\<close>

definition is_digit :: "char \<Rightarrow> bool" where
  "is_digit c = (let n = (of_char c :: nat) in 48 \<le> n \<and> n \<le> 57)"








section \<open>ResponseCache (ai\_backend\_advanced.py)\<close>

record 'a CachedResponse =
  query :: string
  response :: 'a
  created_at :: datetime
  ttl :: timedelta

text \<open>\<open>CachedResponse.__init__\<close>; \<open>now\<close> is the clock reading of the constructor.\<close>

definition CachedResponse_init :: "string \<Rightarrow> 'a \<Rightarrow> int \<Rightarrow> datetime \<Rightarrow> 'a CachedResponse" where
  "CachedResponse_init q r ttl_seconds now =
     \<lparr>query = py_strip (py_lower q), response = r, created_at = now,
      ttl = timedelta_seconds ttl_seconds\<rparr>"

definition CachedResponse_is_valid :: "datetime \<Rightarrow> 'a CachedResponse \<Rightarrow> bool" where
  "CachedResponse_is_valid now e = (now < created_at e + ttl e)"

text \<open>
  The \<open>dict\<close> of the cache is an association list in insertion order: assignment to a
  present key replaces the value in place, assignment to a new key appends, which is
  \<open>AList.update\<close>; \<open>del\<close> is \<open>AList.delete\<close>; lookup is \<open>map_of\<close>.
\<close>

record 'a ResponseCache =
  cache :: "(string \<times> 'a CachedResponse) list"
  max_entries :: int

definition ResponseCache_init :: "int \<Rightarrow> 'a ResponseCache" where
  "ResponseCache_init n = \<lparr>cache = [], max_entries = n\<rparr>"

text \<open>
  Python's \<open>min(xs, key=f)\<close>: the first element, in iteration order, whose key is
  minimal; \<open>ValueError\<close> on an empty sequence.
\<close>

definition py_min :: "('k \<Rightarrow> int) \<Rightarrow> 'k list \<Rightarrow> py_error + 'k" where
  "py_min f xs = (case xs of [] \<Rightarrow> Inl ValueError
     | x # ys \<Rightarrow> Inr (foldl (\<lambda>best y. if f y < f best then y else best) x ys))"

text \<open>The key function of the eviction: \<open>lambda k: self.cache[k].created_at\<close>.\<close>

definition created_at_of :: "(string \<times> 'a CachedResponse) list \<Rightarrow> string \<Rightarrow> datetime" where
  "created_at_of al k = (case map_of al k of Some e \<Rightarrow> created_at e | None \<Rightarrow> 0)"

definition ResponseCache_get ::
  "'a ResponseCache \<Rightarrow> string \<Rightarrow> datetime \<Rightarrow> 'a option \<times> 'a ResponseCache" where
  "ResponseCache_get c q now =
     (let key = py_strip (py_lower q) in
      case map_of (cache c) key of
        None \<Rightarrow> (None, c)
      | Some cached \<Rightarrow>
          if CachedResponse_is_valid now cached then (Some (response cached), c)
          else (None, c\<lparr>cache := AList.delete key (cache c)\<rparr>))"

definition ResponseCache_set ::
  "'a ResponseCache \<Rightarrow> string \<Rightarrow> 'a \<Rightarrow> int \<Rightarrow> datetime \<Rightarrow> py_error + 'a ResponseCache" where
  "ResponseCache_set c q r ttl_seconds now =
     (let key = py_strip (py_lower q);
          entry = CachedResponse_init q r ttl_seconds now
      in if int (length (cache c)) \<ge> max_entries c
         then (case py_min (created_at_of (cache c)) (map fst (cache c)) of
                 Inl e \<Rightarrow> Inl e
               | Inr oldest_key \<Rightarrow>
                   Inr (c\<lparr>cache := AList.update key entry (AList.delete oldest_key (cache c))\<rparr>))
         else Inr (c\<lparr>cache := AList.update key entry (cache c)\<rparr>))"

definition ResponseCache_clear :: "'a ResponseCache \<Rightarrow> 'a ResponseCache" where
  "ResponseCache_clear c = c\<lparr>cache := []\<rparr>"

text \<open>A sequence of calls on one cache; the first exception ends it.\<close>

datatype 'a cache_op = Get string datetime | Set string 'a int datetime | Clear

fun cache_step :: "'a ResponseCache \<Rightarrow> 'a cache_op \<Rightarrow> py_error + 'a ResponseCache" where
  "cache_step c (Get q now) = Inr (snd (ResponseCache_get c q now))"
| "cache_step c (Set q r t now) = ResponseCache_set c q r t now"
| "cache_step c Clear = Inr (ResponseCache_clear c)"

fun cache_run :: "'a ResponseCache \<Rightarrow> 'a cache_op list \<Rightarrow> py_error + 'a ResponseCache" where
  "cache_run c [] = Inr c"
| "cache_run c (x # xs) = (case cache_step c x of Inl e \<Rightarrow> Inl e | Inr c' \<Rightarrow> cache_run c' xs)"

section \<open>ContextManager (ai\_backend\_advanced.py)\<close>

record turn =
  timestamp :: string
  user :: string
  assistant :: string

record ContextManager =
  history :: "turn list"
  max_history :: int

definition ContextManager_init :: "int \<Rightarrow> ContextManager" where
  "ContextManager_init n = \<lparr>history = [], max_history = n\<rparr>"

text \<open>
  \<open>add_turn\<close>; \<open>ts\<close> is \<open>datetime.now().isoformat()\<close>. After the append the list is
  not empty, so \<open>pop(0)\<close> cannot raise and is \<open>tl\<close>.
\<close>

definition add_turn :: "ContextManager \<Rightarrow> string \<Rightarrow> string \<Rightarrow> string \<Rightarrow> ContextManager" where
  "add_turn c user_input assistant_response ts =
     (let h = history c @ [\<lparr>timestamp = ts, user = user_input, assistant = assistant_response\<rparr>]
      in c\<lparr>history := (if int (length h) > max_history c then tl h else h)\<rparr>)"

definition clear_history :: "ContextManager \<Rightarrow> ContextManager" where
  "clear_history c = c\<lparr>history := []\<rparr>"

text \<open>Repeated calls, one per (user, assistant, timestamp) triple, in order.\<close>

fun add_turns :: "ContextManager \<Rightarrow> (string \<times> string \<times> string) list \<Rightarrow> ContextManager" where
  "add_turns c [] = c"
| "add_turns c ((u, a, ts) # xs) = add_turns (add_turn c u a ts) xs"

definition mk_turn :: "string \<times> string \<times> string \<Rightarrow> turn" where
  "mk_turn x = (case x of (u, a, ts) \<Rightarrow> \<lparr>timestamp = ts, user = u, assistant = a\<rparr>)"

section \<open>Regular expressions of the source\<close>

text \<open>
  The constructs that the patterns of the source use. A repetition is only ever applied
  to a character class. \<open>rx_match\<close> returns, for a start state (the groups captured so
  far and the text still to read), the states after every way of matching, in the order
  in which the backtracking matcher of \<open>re\<close> tries them (alternatives left to right,
  greedy repetitions longest first); \<open>rx_search\<close> is \<open>re.search\<close>: the first way at
  the leftmost position that has one. With the flag set, literals and back-references
  compare characters after \<open>py_lower_char\<close> (\<open>re.IGNORECASE\<close>).
\<close>

datatype cls = Dot | Digit | Space | NotSpace | OneOf string | NoneOf string

fun cls_match :: "cls \<Rightarrow> char \<Rightarrow> bool" where
  "cls_match Dot c = (c \<noteq> CHR 0x0A)"
| "cls_match Digit c = is_digit c"
| "cls_match Space c = py_isspace c"
| "cls_match NotSpace c = (\<not> py_isspace c)"
| "cls_match (OneOf s) c = (c \<in> set s)"
| "cls_match (NoneOf s) c = (c \<notin> set s)"

datatype rx = Lit string | One cls | Star cls | Plus cls | Opt rx | Seq rx rx | Alt rx rx
  | Group nat rx | Backref nat

type_synonym groups = "(nat \<times> string) list"

fun lit_rest :: "bool \<Rightarrow> string \<Rightarrow> string \<Rightarrow> string option" where
  "lit_rest ic [] s = Some s"
| "lit_rest ic (a # w) [] = None"
| "lit_rest ic (a # w) (c # s) =
     (if (if ic then py_lower_char a = py_lower_char c else a = c) then lit_rest ic w s else None)"

fun star_rests :: "cls \<Rightarrow> string \<Rightarrow> string list" where
  "star_rests k [] = [[]]"
| "star_rests k (c # cs) = (if cls_match k c then star_rests k cs else []) @ [c # cs]"

fun rx_match :: "bool \<Rightarrow> rx \<Rightarrow> groups \<times> string \<Rightarrow> (groups \<times> string) list" where
  "rx_match ic (Lit w) (g, s) = (case lit_rest ic w s of None \<Rightarrow> [] | Some r \<Rightarrow> [(g, r)])"
| "rx_match ic (One k) (g, s) =
     (case s of [] \<Rightarrow> [] | c # cs \<Rightarrow> if cls_match k c then [(g, cs)] else [])"
| "rx_match ic (Star k) (g, s) = map (Pair g) (star_rests k s)"
| "rx_match ic (Plus k) (g, s) =
     (case s of [] \<Rightarrow> [] | c # cs \<Rightarrow> if cls_match k c then map (Pair g) (star_rests k cs) else [])"
| "rx_match ic (Opt r) (g, s) = rx_match ic r (g, s) @ [(g, s)]"
| "rx_match ic (Seq a b) (g, s) = concat (map (rx_match ic b) (rx_match ic a (g, s)))"
| "rx_match ic (Alt a b) (g, s) = rx_match ic a (g, s) @ rx_match ic b (g, s)"
| "rx_match ic (Group n r) (g, s) =
     map (\<lambda>(g', s'). (AList.update n (take (length s - length s') s) g', s')) (rx_match ic r (g, s))"
| "rx_match ic (Backref n) (g, s) =
     (case map_of g n of None \<Rightarrow> []
      | Some w \<Rightarrow> (case lit_rest ic w s of None \<Rightarrow> [] | Some r \<Rightarrow> [(g, r)]))"

fun rx_search :: "bool \<Rightarrow> rx \<Rightarrow> string \<Rightarrow> groups option" where
  "rx_search ic r [] = (case rx_match ic r ([], []) of [] \<Rightarrow> None | m # _ \<Rightarrow> Some (fst m))"
| "rx_search ic r (c # cs) =
     (case rx_match ic r ([], c # cs) of [] \<Rightarrow> rx_search ic r cs | m # _ \<Rightarrow> Some (fst m))"

fun seqs :: "rx list \<Rightarrow> rx" where
  "seqs [] = Lit []"
| "seqs [r] = r"
| "seqs (r # rs) = Seq r (seqs rs)"

fun alts :: "rx list \<Rightarrow> rx" where
  "alts [] = One (OneOf [])"
| "alts [r] = r"
| "alts (r # rs) = Alt r (alts rs)"

definition quotes :: string where
  "quotes = [CHR 0x22, CHR 0x27]"

text \<open>\<open>(edit|open)\s+(?:file\s+)?(["\']?)([^"\']+)\2\<close>\<close>
definition file_pattern :: rx where
  "file_pattern = seqs [Group 1 (alts [Lit ''edit'', Lit ''open'']), Plus Space,
     Opt (seqs [Lit ''file'', Plus Space]), Group 2 (Opt (One (OneOf quotes))),
     Group 3 (Plus (NoneOf quotes)), Backref 2]"

text \<open>\<open>download\s+(?:from\s+)?([^\s]+)\<close>\<close>
definition download_pattern :: rx where
  "download_pattern = seqs [Lit ''download'', Plus Space, Opt (seqs [Lit ''from'', Plus Space]),
     Group 1 (Plus NotSpace)]"

text \<open>\<open>(?:open|launch|start)\s+(["\']?)([^"\']+)\1\<close>\<close>
definition app_pattern :: rx where
  "app_pattern = seqs [alts [Lit ''open'', Lit ''launch'', Lit ''start''], Plus Space,
     Group 1 (Opt (One (OneOf quotes))), Group 2 (Plus (NoneOf quotes)), Backref 1]"

text \<open>\<open>click\s+(?:on\s+)?([^,]+)\<close>\<close>
definition click_pattern :: rx where
  "click_pattern = seqs [Lit ''click'', Plus Space, Opt (seqs [Lit ''on'', Plus Space]),
     Group 1 (Plus (NoneOf '',''))]"

text \<open>\<open>type\s+(["\']?)([^"\']+)\1\<close>\<close>
definition type_pattern :: rx where
  "type_pattern = seqs [Lit ''type'', Plus Space, Group 1 (Opt (One (OneOf quotes))),
     Group 2 (Plus (NoneOf quotes)), Backref 1]"

definition grp :: "groups \<Rightarrow> nat \<Rightarrow> string" where
  "grp g n = (case map_of g n of Some w \<Rightarrow> w | None \<Rightarrow> [])"

section \<open>CommandExecutor.parse\_intent (jarvis/command\_executor.py)\<close>

text \<open>The argument of \<open>parse_intent\<close> is any Python object; these are the kinds modelled.\<close>

datatype py_value = PyNone | PyBool bool | PyInt int | PyStr string | PyBytes string
  | PyList "py_value list"

fun truthy :: "py_value \<Rightarrow> bool" where
  "truthy PyNone = False"
| "truthy (PyBool b) = b"
| "truthy (PyInt i) = (i \<noteq> 0)"
| "truthy (PyStr s) = (s \<noteq> [])"
| "truthy (PyBytes s) = (s \<noteq> [])"
| "truthy (PyList xs) = (xs \<noteq> [])"

record CommandIntent =
  intent_type :: string
  action :: string
  params :: "(string \<times> string) list"

definition CommandIntent_init :: "string \<Rightarrow> string \<Rightarrow> (string \<times> string) list \<Rightarrow> CommandIntent" where
  "CommandIntent_init t a p = \<lparr>intent_type = t, action = a, params = p\<rparr>"

text \<open>The templates below the shell template, in the order of the source.\<close>

definition parse_type :: "string \<Rightarrow> string \<Rightarrow> CommandIntent option" where
  "parse_type command_text command_lower =
     (if py_in ''type'' command_lower then
        (case rx_search True type_pattern command_text of
           Some m \<Rightarrow> Some (CommandIntent_init ''gui'' ''type'' [(''text'', grp m 2)])
         | None \<Rightarrow> None)
      else None)"

definition parse_scroll :: "string \<Rightarrow> string \<Rightarrow> CommandIntent option" where
  "parse_scroll command_text command_lower =
     (if py_in ''scroll'' command_lower then
        Some (CommandIntent_init ''gui'' ''scroll''
          [(''direction'', if py_in ''down'' command_lower then ''down''
                           else if py_in ''up'' command_lower then ''up'' else ''down'')])
      else parse_type command_text command_lower)"

definition parse_click :: "string \<Rightarrow> string \<Rightarrow> CommandIntent option" where
  "parse_click command_text command_lower =
     (case (if py_in ''click'' command_lower then rx_search True click_pattern command_text else None) of
        Some m \<Rightarrow> Some (CommandIntent_init ''gui'' ''click'' [(''target'', py_strip (grp m 1))])
      | None \<Rightarrow> parse_scroll command_text command_lower)"

definition parse_app :: "string \<Rightarrow> string \<Rightarrow> CommandIntent option" where
  "parse_app command_text command_lower =
     (case (if py_in ''open'' command_lower \<or> py_in ''launch'' command_lower
               \<or> py_in ''start'' command_lower
            then rx_search True app_pattern command_text else None) of
        Some m \<Rightarrow> Some (CommandIntent_init ''app'' ''open'' [(''app'', grp m 2)])
      | None \<Rightarrow> parse_click command_text command_lower)"

definition parse_download :: "string \<Rightarrow> string \<Rightarrow> CommandIntent option" where
  "parse_download command_text command_lower =
     (case (if py_in ''download'' command_lower
            then rx_search True download_pattern command_text else None) of
        Some m \<Rightarrow> Some (CommandIntent_init ''download'' ''fetch'' [(''url'', grp m 1)])
      | None \<Rightarrow> parse_app command_text command_lower)"

definition parse_file :: "string \<Rightarrow> string \<Rightarrow> CommandIntent option" where
  "parse_file command_text command_lower =
     (case (if (py_in ''edit'' command_lower \<or> py_in ''open'' command_lower)
               \<and> py_in ''file'' command_lower
            then rx_search True file_pattern command_text else None) of
        Some m \<Rightarrow> Some (CommandIntent_init ''file'' ''edit'' [(''filename'', grp m 3)])
      | None \<Rightarrow> parse_download command_text command_lower)"

text \<open>
  \<open>parse_intent\<close>. \<open>command_lower.split()[0]\<close> raises \<open>IndexError\<close> on a string
  without a token; that branch is part of the model.
\<close>

definition parse_intent :: "py_value \<Rightarrow> py_error + CommandIntent option" where
  "parse_intent v =
     (if \<not> truthy v then Inr None
      else case v of
        PyStr command_text \<Rightarrow>
          (let command_lower = py_strip (py_lower command_text) in
           if starts_with command_lower ''run '' \<or> starts_with command_lower ''execute ''
              \<or> starts_with command_lower ''shell ''
           then (case py_split command_lower of
                   [] \<Rightarrow> Inl IndexError
                 | w # _ \<Rightarrow>
                     Inr (Some (CommandIntent_init ''shell''
                            (py_strip (drop (length w + 1) command_text)) [])))
           else Inr (parse_file command_text command_lower))
      | _ \<Rightarrow> Inr None)"

section \<open>SudoSession and SecurityChecker (jarvis/security.py)\<close>

record SudoSession =
  duration_seconds :: int
  session_start :: "datetime option"
  active :: bool

definition SudoSession_init :: "int \<Rightarrow> SudoSession" where
  "SudoSession_init d = \<lparr>duration_seconds = d, session_start = None, active = False\<rparr>"

definition SudoSession_deactivate :: "SudoSession \<Rightarrow> SudoSession" where
  "SudoSession_deactivate s = s\<lparr>active := False, session_start := None\<rparr>"

text \<open>
  \<open>is_valid\<close> reads the clock once (\<open>now\<close>) and deactivates an expired session; the
  result is the answer and the session afterwards.
\<close>

definition SudoSession_is_valid :: "SudoSession \<Rightarrow> datetime \<Rightarrow> bool \<times> SudoSession" where
  "SudoSession_is_valid s now =
     (case session_start s of
        None \<Rightarrow> (False, s)
      | Some start \<Rightarrow>
          if \<not> active s then (False, s)
          else if now - start > timedelta_seconds (duration_seconds s)
          then (False, SudoSession_deactivate s)
          else (True, s))"

text \<open>
  \<open>activate\<close>: \<open>t1\<close> is the reading of the validity check (made only when the session
  is active), \<open>t2\<close> the reading that becomes the new start.
\<close>

definition SudoSession_activate :: "SudoSession \<Rightarrow> datetime \<Rightarrow> datetime \<Rightarrow> bool \<times> SudoSession" where
  "SudoSession_activate s t1 t2 =
     (let (valid, s1) = (if active s then SudoSession_is_valid s t1 else (False, s))
      in if valid then (False, s1)
         else (True, s1\<lparr>session_start := Some t2, active := True\<rparr>))"

record SecurityChecker =
  dangerous_keywords :: "string list"

definition default_dangerous_keywords :: "string list" where
  "default_dangerous_keywords =
     [''rm -rf'', ''mkfs'', '':(){:|:&};:'', ''shutdown -h now'', ''reboot'', ''poweroff'',
      ''dd if='', ''format c:'']"

text \<open>\<open>dangerous_keywords or [...]\<close>: \<open>None\<close> and the empty list give the default list.\<close>

definition SecurityChecker_init :: "string list option \<Rightarrow> SecurityChecker" where
  "SecurityChecker_init kws =
     \<lparr>dangerous_keywords =
        (case kws of None \<Rightarrow> default_dangerous_keywords
         | Some ks \<Rightarrow> if ks = [] then default_dangerous_keywords else ks)\<rparr>"

definition is_dangerous :: "SecurityChecker \<Rightarrow> string \<Rightarrow> bool" where
  "is_dangerous c command =
     list_ex (\<lambda>keyword. py_in (py_lower keyword) (py_lower command)) (dangerous_keywords c)"

definition check_command :: "SecurityChecker \<Rightarrow> string \<Rightarrow> bool \<Rightarrow> bool \<times> string" where
  "check_command c command sudo_active =
     (if command = [] \<or> py_strip command = [] then (False, ''Empty command'')
      else if is_dangerous c command then
        (if sudo_active then (True, ''Allowed under sudo session'')
         else (False, ''Command contains dangerous keywords and sudo not active''))
      else (True, ''Command is safe''))"

section \<open>CommandExecutor.\_execute\_shell (jarvis/command\_executor.py)\<close>

text \<open>
  What a call does with the command: it returns \<open>(False, msg)\<close> without running
  anything (\<open>Refused msg\<close>), or it hands the command to \<open>subprocess.run\<close> (\<open>Ran\<close>), whose
  outcome is outside the model.
\<close>

datatype 'c outcome = Refused string | Ran 'c

record CommandExecutor =
  allow_system_commands :: bool
  security_checker :: SecurityChecker
  sudo_session :: SudoSession

text \<open>
  \<open>__init__\<close>, from the \<open>security\<close> section of the configuration: the entries
  \<open>allow_system_commands\<close> (default \<open>False\<close>), \<open>dangerous_keywords\<close> (default \<open>[]\<close>) and
  \<open>sudo_mode_duration\<close> (default 300).
\<close>

definition CommandExecutor_init :: "bool option \<Rightarrow> string list option \<Rightarrow> int option \<Rightarrow> CommandExecutor" where
  "CommandExecutor_init allow kws dur =
     \<lparr>allow_system_commands = (case allow of None \<Rightarrow> False | Some b \<Rightarrow> b),
      security_checker = SecurityChecker_init (Some (case kws of None \<Rightarrow> [] | Some ks \<Rightarrow> ks)),
      sudo_session = SudoSession_init (case dur of None \<Rightarrow> 300 | Some d \<Rightarrow> d)\<rparr>"

definition execute_shell :: "CommandExecutor \<Rightarrow> string \<Rightarrow> datetime \<Rightarrow> string outcome \<times> CommandExecutor" where
  "execute_shell ex command now =
     (if \<not> allow_system_commands ex then (Refused ''System commands are disabled'', ex)
      else let (valid, s1) = SudoSession_is_valid (sudo_session ex) now;
               (allowed, reason) = check_command (security_checker ex) command valid;
               ex1 = ex\<lparr>sudo_session := s1\<rparr>
           in if \<not> allowed then (Refused reason, ex1) else (Ran command, ex1))"

section \<open>EnhancedSecurityManager (enhanced-security.py)\<close>

text \<open>The class \<open>SudoSession\<close> of enhanced-security.py.\<close>

record TimedSession =
  start_time :: datetime
  duration :: timedelta
  end_time :: datetime
  is_active :: bool


definition TimedSession_is_valid :: "TimedSession \<Rightarrow> datetime \<Rightarrow> bool \<times> TimedSession" where
  "TimedSession_is_valid s now =
     (if \<not> is_active s then (False, s)
      else if now > end_time s then (False, s\<lparr>is_active := False\<rparr>)
      else (True, s))"



definition end_session :: "TimedSession \<Rightarrow> TimedSession" where
  "end_session s = s\<lparr>is_active := False\<rparr>"

text \<open>
  The \<open>security\<close> section of the configuration dictionary: each entry may be absent.
\<close>

record security_config =
  cfg_sudo_keyword :: "string option"
  cfg_sudo_mode_duration :: "int option"
  cfg_allow_custom_sudo :: "bool option"
  cfg_allow_timed_sudo :: "bool option"

record EnhancedSecurityManager =
  sudo_keyword :: string
  default_sudo_duration :: int
  allow_custom_sudo :: bool
  allow_timed_sudo :: bool
  current_session :: "TimedSession option"
  dangerous_commands :: "string list"

datatype config_error = FileNotFoundError | JSONDecodeError

text \<open>
  \<open>__init__\<close>. The argument is \<open>None\<close> for a missing or empty dictionary and otherwise
  \<open>Some sec\<close>, where \<open>sec\<close> is the \<open>security\<close> entry (\<open>None\<close> when the dictionary has
  none). \<open>loaded\<close> is what \<open>load_config()\<close> does when it is called: it raises, or it
  returns the \<open>security\<close> entry of config/config.json.
\<close>

definition EnhancedSecurityManager_init ::
  "security_config option option \<Rightarrow> config_error + security_config option
     \<Rightarrow> config_error + EnhancedSecurityManager" where
  "EnhancedSecurityManager_init config loaded =
     (case (case config of Some sec \<Rightarrow> Inr sec | None \<Rightarrow> loaded) of
        Inl e \<Rightarrow> Inl e
      | Inr sec \<Rightarrow>
          let security_config =
                (case sec of Some c \<Rightarrow> c
                 | None \<Rightarrow> \<lparr>cfg_sudo_keyword = None, cfg_sudo_mode_duration = None,
                            cfg_allow_custom_sudo = None, cfg_allow_timed_sudo = None\<rparr>)
          in Inr \<lparr>sudo_keyword =
                    (case cfg_sudo_keyword security_config of None \<Rightarrow> ''sudo code 0'' | Some k \<Rightarrow> k),
                  default_sudo_duration =
                    (case cfg_sudo_mode_duration security_config of None \<Rightarrow> 300 | Some d \<Rightarrow> d),
                  allow_custom_sudo =
                    (case cfg_allow_custom_sudo security_config of None \<Rightarrow> True | Some b \<Rightarrow> b),
                  allow_timed_sudo =
                    (case cfg_allow_timed_sudo security_config of None \<Rightarrow> True | Some b \<Rightarrow> b),
                  current_session = None,
                  dangerous_commands =
                    [''rm -rf'', ''dd if='', ''mkfs'', ''fdisk'', ''shutdown'', ''reboot'', ''halt'',
                     ''kill -9'', ''pkill -9'', ''chmod 777'', ''chown'', ''usermod'', ''userdel'']\<rparr>)"




definition cross_mark :: string where
  "cross_mark = [CHR 0xE2, CHR 0x9D, CHR 0x8C]"

definition warning_sign :: string where
  "warning_sign = [CHR 0xE2, CHR 0x9A, CHR 0xA0, CHR 0xEF, CHR 0xB8, CHR 0x8F]"



definition is_sudo_active :: "EnhancedSecurityManager \<Rightarrow> datetime \<Rightarrow> bool \<times> EnhancedSecurityManager" where
  "is_sudo_active m now =
     (case current_session m of
        None \<Rightarrow> (False, m)
      | Some s \<Rightarrow> (let (valid, s1) = TimedSession_is_valid s now
                   in (valid, m\<lparr>current_session := Some s1\<rparr>)))"

definition check_dangerous_command :: "EnhancedSecurityManager \<Rightarrow> string \<Rightarrow> bool \<times> string option" where
  "check_dangerous_command m command =
     (if list_ex (\<lambda>dangerous. py_in (py_lower dangerous) (py_lower command)) (dangerous_commands m)
      then (True, Some (warning_sign @ '' WARNING: This command is potentially dangerous!''
                         @ [CHR 0x0A] @ ''Command: '' @ command))
      else (False, None))"

text \<open>\<open>execute_with_sudo\<close>: what is run is the argument vector \<open>['sudo'] + command.split()\<close>.\<close>

definition execute_with_sudo ::
  "EnhancedSecurityManager \<Rightarrow> string \<Rightarrow> datetime \<Rightarrow> string list outcome \<times> EnhancedSecurityManager" where
  "execute_with_sudo m command now =
     (let (act, m1) = is_sudo_active m now in
      if \<not> act
      then (Refused (cross_mark @ '' Sudo mode not active. Say '' @ [CHR 0x27] @ ''sudo code 0''
                      @ [CHR 0x27] @ '' first.''), m1)
      else case check_dangerous_command m1 command of
             (True, warning) \<Rightarrow>
               (Refused ((case warning of Some w \<Rightarrow> w | None \<Rightarrow> ''None'')
                         @ [CHR 0x0A, CHR 0x0A]
                         @ ''This command will NOT be executed for safety reasons.''), m1)
           | (False, _) \<Rightarrow> (Ran (''sudo'' # py_split command), m1))"

text \<open>The configuration dictionary of \<open>main()\<close> in enhanced-security.py.\<close>

definition main_config :: "security_config option option" where
  "main_config = Some (Some \<lparr>cfg_sudo_keyword = Some ''sudo code 0'',
      cfg_sudo_mode_duration = Some 300, cfg_allow_custom_sudo = Some True,
      cfg_allow_timed_sudo = Some True\<rparr>)"

text \<open>The manager that \<open>main()\<close> constructs from it.\<close>

definition main_manager :: EnhancedSecurityManager where
  "main_manager =
     \<lparr>sudo_keyword = ''sudo code 0'', default_sudo_duration = 300,
      allow_custom_sudo = True, allow_timed_sudo = True, current_session = None,
      dangerous_commands =
        [''rm -rf'', ''dd if='', ''mkfs'', ''fdisk'', ''shutdown'', ''reboot'', ''halt'',
         ''kill -9'', ''pkill -9'', ''chmod 777'', ''chown'', ''usermod'', ''userdel'']\<rparr>"

section \<open>SmartRouter.detect\_task\_type (smart-router.py)\<close>

datatype TaskType = RESEARCH | CODE | MATH | CREATIVE | FACTUAL | SYSTEM | GENERAL

definition lits :: "string list \<Rightarrow> rx list" where
  "lits ws = map Lit ws"

text \<open>
  \<open>self.task_patterns\<close>, a dictionary literal: its items in the order of the source, each
  pattern with its alternatives from left to right.
\<close>

definition task_patterns :: "(TaskType \<times> rx list) list" where
  "task_patterns =
   [(RESEARCH,
      [alts (lits [''research'', ''find'', ''search'', ''look up'', ''investigate'', ''explore'',
                   ''discover'', ''learn about'']),
       alts (seqs [Lit ''what'', Opt (Lit [CHR 0x27]), Opt (Lit ''s''), Lit '' the latest'']
             # lits [''recent'', ''current'', ''up to date'']),
       alts (lits [''tell me about'', ''information about'', ''facts about''])]),
    (CODE,
      [alts (lits [''code'', ''write'', ''implement'', ''function'', ''class'', ''script'',
                   ''program'', ''snippet'']),
       alts (seqs [Lit ''how to'', Star Dot, Lit ''python'']
             # lits [''javascript'', ''java'', ''c++'', ''rust'', ''go'']),
       alts (seqs [Lit ''solve'', Star Dot, Lit ''problem'']
             # lits [''algorithm'', ''data structure''])]),
    (MATH,
      [alts (lits [''calculate'', ''solve'', ''equation'', ''integral'', ''derivative'', ''matrix'',
                   ''algebra'', ''geometry'']),
       alts (lits [''math'', ''formula'', ''proof'', ''theorem'', ''logic'', ''reasoning'']),
       alts (seqs [Lit ''what'', Opt (Lit [CHR 0x27]), Opt (Lit ''s''), Opt (Lit '' ''), Plus Digit,
                   Star Space, One (OneOf ''+-*/'')]
             # lits [''calculus'', ''linear algebra''])]),
    (CREATIVE,
      [alts (lits [''write'', ''story'', ''poem'', ''song'', ''creative'', ''fiction'', ''imagine'',
                   ''invent'']),
       alts (lits [''description'', ''narrative'', ''dialogue'', ''script'', ''play'']),
       alts (seqs [Lit ''make'', Star Dot, Lit ''funny'']
             # lits [''joke'', ''pun'', ''humorous''])]),
    (FACTUAL,
      [alts (lits [''fact'', ''true'', ''history'', ''biography'', ''definition'', ''who'',
                   ''what is'', ''explain'']),
       alts (lits [''when'', ''where'', ''how many'', ''population'', ''capital'', ''president'']),
       alts (lits [''definition of'', ''meaning of'', ''do you know''])]),
    (SYSTEM,
      [alts (lits [''system'', ''command'', ''shell'', ''terminal'', ''execute'', ''run'', ''install'',
                   ''configure'']),
       alts (lits [''sudo'', ''root'', ''permission'', ''access'', ''security'', ''firewall'']),
       alts (lits [''linux'', ''ubuntu'', ''debian'', ''fedora'', ''arch''])])]"

text \<open>The inner loop: the number of patterns that \<open>re.search\<close> finds in the text.\<close>

definition score :: "rx list \<Rightarrow> string \<Rightarrow> nat" where
  "score patterns query_lower =
     length (filter (\<lambda>pattern. rx_search False pattern query_lower \<noteq> None) patterns)"

text \<open>
  Python's \<open>max(xs, key=f)\<close> on a non-empty sequence: the first element, in iteration
  order, whose key is maximal.
\<close>

definition py_max :: "('k \<Rightarrow> nat) \<Rightarrow> 'k \<Rightarrow> 'k list \<Rightarrow> 'k" where
  "py_max f x ys = foldl (\<lambda>best y. if f y > f best then y else best) x ys"

definition scores_of :: "string \<Rightarrow> (TaskType \<times> nat) list" where
  "scores_of query_lower = map (\<lambda>(task_type, patterns). (task_type, score patterns query_lower)) task_patterns"

definition detect_task_type :: "string \<Rightarrow> TaskType" where
  "detect_task_type query_str =
     (let scores = scores_of (py_lower query_str) in
      case scores of
        [] \<Rightarrow> GENERAL
      | s # rest \<Rightarrow>
          if snd (py_max snd s rest) > 0 then fst (py_max snd s rest) else GENERAL)"

section \<open>Properties of the response cache\<close>
















text \<open>The keys of every cache reached from the constructor are distinct.\<close>

lemma cache_step_distinct:
  assumes "distinct (map fst (cache c))" and "cache_step c x = Inr c'"
  shows "distinct (map fst (cache c'))"
proof (cases x)
  case (Get q now)
  with assms show ?thesis
    by (auto simp: ResponseCache_get_def Let_def distinct_delete split: option.splits if_splits)
next
  case (Set q r t now)
  with assms show ?thesis
    by (auto simp: ResponseCache_set_def Let_def distinct_update distinct_delete
        split: if_splits sum.splits)
next
  case Clear
  with assms show ?thesis by (auto simp: ResponseCache_clear_def)
qed

lemma cache_run_distinct_from:
  "distinct (map fst (cache c)) \<Longrightarrow> cache_run c ops = Inr c' \<Longrightarrow> distinct (map fst (cache c'))"
proof (induction ops arbitrary: c)
  case Nil
  then show ?case by simp
next
  case (Cons x xs)
  then show ?case
    by (cases "cache_step c x") (auto dest: cache_step_distinct)
qed

lemma cache_run_distinct:
  "cache_run (ResponseCache_init n) ops = Inr c' \<Longrightarrow> distinct (map fst (cache c'))"
  using cache_run_distinct_from[of "ResponseCache_init n" ops c']
  by (simp add: ResponseCache_init_def)





section \<open>Properties of the conversation history\<close>

lemma add_turn_history:
  assumes "int (length (history c)) \<le> max_history c"
  shows "history (add_turn c u a ts) =
           drop (Suc (length (history c)) - nat (max_history c)) (history c @ [mk_turn (u, a, ts)]) \<and>
         max_history (add_turn c u a ts) = max_history c"
proof (cases "int (length (history c)) = max_history c")
  case True
  then have "Suc (length (history c)) - nat (max_history c) = 1" by auto
  with True show ?thesis by (cases "history c") (simp_all add: add_turn_def mk_turn_def drop_Suc)
next
  case False
  with assms have "Suc (length (history c)) - nat (max_history c) = 0" by auto
  with False assms show ?thesis by (simp add: add_turn_def mk_turn_def)
qed

lemma add_turns_history:
  assumes "int (length (history c)) \<le> max_history c"
  shows "history (add_turns c xs) =
           drop (length (history c) + length xs - nat (max_history c)) (history c @ map mk_turn xs) \<and>
         max_history (add_turns c xs) = max_history c"
  using assms
proof (induction xs arbitrary: c)
  case Nil
  then show ?case by simp
next
  case (Cons x xs)
  obtain u a ts where x: "x = (u, a, ts)" by (cases x) auto
  let ?c = "add_turn c u a ts"
  let ?m = "nat (max_history c)"
  let ?h = "history c"
  from add_turn_history[OF Cons.prems, of u a ts]
  have h1: "history ?c = drop (Suc (length ?h) - ?m) (?h @ [mk_turn x])"
    and m1: "max_history ?c = max_history c" by (simp_all add: x)
  from Cons.prems have le: "length ?h \<le> ?m" by simp
  have len1: "length (history ?c) = min (Suc (length ?h)) ?m"
    using le by (simp add: h1)
  then have inv1: "int (length (history ?c)) \<le> max_history ?c" using m1 Cons.prems by simp
  from Cons.IH[OF inv1]
  have "history (add_turns ?c xs) =
          drop (length (history ?c) + length xs - ?m) (history ?c @ map mk_turn xs)"
    and m2: "max_history (add_turns ?c xs) = max_history c" by (simp_all add: m1)
  moreover have "drop (length (history ?c) + length xs - ?m) (history ?c @ map mk_turn xs) =
     drop (length ?h + length (x # xs) - ?m) (?h @ map mk_turn (x # xs))"
  proof (cases "length ?h = ?m")
    case True
    then have "history ?c = tl (?h @ [mk_turn x])" by (cases ?h) (simp_all add: h1 drop_Suc)
    then have app: "history ?c @ map mk_turn xs = drop 1 (?h @ map mk_turn (x # xs))"
      by (cases ?h) (simp_all add: drop_Suc)
    have "length (history ?c) = ?m" using len1 True by simp
    then have l: "length (history ?c) + length xs - ?m = length xs" by simp
    have r: "length ?h + length (x # xs) - ?m = length xs + 1" using True by simp
    show ?thesis unfolding l r app by (simp only: drop_drop)
  next
    case False
    with le have lt: "length ?h < ?m" by simp
    then have "history ?c = ?h @ [mk_turn x]" by (simp add: h1)
    then show ?thesis by simp
  qed
  ultimately show ?case by (simp add: x)
qed

text \<open>Every history reached from the constructor is within the bound.\<close>

lemma add_turns_bound:
  assumes "0 \<le> n"
  shows "int (length (history (add_turns (ContextManager_init n) xs))) \<le> n"
proof -
  have "int (length (history (ContextManager_init n))) \<le> max_history (ContextManager_init n)"
    using assms by (simp add: ContextManager_init_def)
  from add_turns_history[OF this, of xs] assms show ?thesis
    by (simp add: ContextManager_init_def)
qed

text \<open>
  Claim C7. From every history within the bound (\<open>__init__\<close> starts empty and \<open>add_turn\<close>
  keeps the bound) and for every maximum \<open>max \<ge> 1\<close>, \<open>max + 5\<close> calls of \<open>add_turn\<close> leave
  exactly \<open>max\<close> turns: the added turns without their first five, in the order of the
  calls, and nothing of the starting history.
\<close>

theorem add_turn_fifo:
  assumes "1 \<le> max_history c" and "int (length (history c)) \<le> max_history c"
    and "length xs = nat (max_history c) + 5"
  shows "history (add_turns c xs) = drop 5 (map mk_turn xs) \<and>
         int (length (history (add_turns c xs))) = max_history c"
proof -
  have "length (history c) + length xs - nat (max_history c) = length (history c) + 5"
    using assms by simp
  with add_turns_history[OF assms(2), of xs]
  have "history (add_turns c xs) = drop 5 (map mk_turn xs)" by simp
  then show ?thesis using assms by simp
qed


theorem add_turn_fifo_witness:
  "history (add_turns (ContextManager_init 1)
      [(''u1'', ''a1'', ''t1''), (''u2'', ''a2'', ''t2''), (''u3'', ''a3'', ''t3''),
       (''u4'', ''a4'', ''t4''), (''u5'', ''a5'', ''t5''), (''u6'', ''a6'', ''t6'')]) =
     [\<lparr>timestamp = ''t6'', user = ''u6'', assistant = ''a6''\<rparr>]"
  using add_turn_fifo[of "ContextManager_init 1"
      "[(''u1'', ''a1'', ''t1''), (''u2'', ''a2'', ''t2''), (''u3'', ''a3'', ''t3''),
        (''u4'', ''a4'', ''t4''), (''u5'', ''a5'', ''t5''), (''u6'', ''a6'', ''t6'')]"]
  by (simp add: ContextManager_init_def mk_turn_def)


section \<open>Properties of the task classifier\<close>

lemma py_max_split:
  "\<exists>pre post. x # ys = pre @ py_max f x ys # post \<and>
     (\<forall>y \<in> set pre. f y < f (py_max f x ys)) \<and> (\<forall>y \<in> set post. f y \<le> f (py_max f x ys))"
  unfolding py_max_def
proof (induction ys arbitrary: x rule: rev_induct)
  case Nil
  show ?case by (rule exI[of _ "[]"], rule exI[of _ "[]"]) simp
next
  case (snoc z zs)
  let ?b = "foldl (\<lambda>best y. if f y > f best then y else best) x zs"
  from snoc[of x] obtain pre post where sp: "x # zs = pre @ ?b # post"
    and lt: "\<forall>y \<in> set pre. f y < f ?b" and le: "\<forall>y \<in> set post. f y \<le> f ?b" by blast
  show ?case
  proof (cases "f z > f ?b")
    case True
    have "x # zs @ [z] = (x # zs) @ z # []" by simp
    moreover have "\<forall>y \<in> set (x # zs). f y < f z"
      using sp lt le True by (metis (no_types, lifting) Un_iff insert_iff le_less_trans less_trans list.set(2) set_append)
    ultimately show ?thesis using True
      by (intro exI[of _ "x # zs"] exI[of _ "[]"]) simp
  next
    case False
    have "x # zs @ [z] = pre @ ?b # (post @ [z])" using sp by simp
    moreover have "\<forall>y \<in> set (post @ [z]). f y \<le> f ?b" using le False by auto
    ultimately show ?thesis using False lt
      by (intro exI[of _ pre] exI[of _ "post @ [z]"]) simp
  qed
qed


lemma scores_of_order:
  "map fst (scores_of ql) = [RESEARCH, CODE, MATH, CREATIVE, FACTUAL, SYSTEM]"
  by (simp add: scores_of_def task_patterns_def)

lemma detect_task_type_general:
  assumes "\<forall>p \<in> set (scores_of (py_lower q)). snd p = 0"
  shows "detect_task_type q = GENERAL"
proof -
  obtain s rest where sc: "scores_of (py_lower q) = s # rest"
    using scores_of_order[of "py_lower q"] by (cases "scores_of (py_lower q)") auto
  from py_max_split[of s rest snd]
  have "py_max snd s rest \<in> set (s # rest)" by (metis in_set_conv_decomp)
  with assms sc have "snd (py_max snd s rest) = 0" by auto
  then show ?thesis by (simp add: detect_task_type_def sc)
qed

lemma detect_task_type_winner:
  assumes "\<exists>p \<in> set (scores_of (py_lower q)). snd p > 0"
  shows "\<exists>pre n post. scores_of (py_lower q) = pre @ (detect_task_type q, n) # post \<and>
           (\<forall>p \<in> set pre. snd p < n) \<and> (\<forall>p \<in> set post. snd p \<le> n)"
proof -
  obtain s rest where sc: "scores_of (py_lower q) = s # rest"
    using scores_of_order[of "py_lower q"] by (cases "scores_of (py_lower q)") auto
  let ?m = "py_max snd s rest"
  from py_max_split[of s rest snd]
  obtain pre post where sp: "s # rest = pre @ ?m # post"
    and lt: "\<forall>y \<in> set pre. snd y < snd ?m" and le: "\<forall>y \<in> set post. snd y \<le> snd ?m"
    by blast
  from assms sc obtain p where p: "p \<in> set (s # rest)" "snd p > 0" by force
  from p(1) sp have "p \<in> set pre \<or> p = ?m \<or> p \<in> set post" by auto
  with lt le p(2) have pos: "snd ?m > 0" by force
  then have d: "detect_task_type q = fst ?m" by (simp add: detect_task_type_def sc)
  have "scores_of (py_lower q) = pre @ (detect_task_type q, snd ?m) # post"
    using sp sc d by simp
  with lt le show ?thesis by blast
qed

text \<open>
  Claim C6. \<open>detect_task_type\<close> scores the six categories in the order of their
  declaration, each score being the number of the category's patterns found in the
  lower-cased text, so that texts equal up to case get the same answer. All scores zero
  yields \<open>GENERAL\<close>; otherwise the answer is the category whose score is maximal,
  strictly greater than the score of every category declared before it: the first
  declared wins a tie. The three examples of the specification evaluate as stated.
\<close>

theorem detect_task_type_rule:
  "map fst (scores_of (py_lower q)) = [RESEARCH, CODE, MATH, CREATIVE, FACTUAL, SYSTEM] \<and>
   (\<forall>t ps. (t, ps) \<in> set task_patterns \<longrightarrow>
      (t, length (filter (\<lambda>pattern. rx_search False pattern (py_lower q) \<noteq> None) ps))
        \<in> set (scores_of (py_lower q))) \<and>
   ((\<forall>p \<in> set (scores_of (py_lower q)). snd p = 0) \<longrightarrow> detect_task_type q = GENERAL) \<and>
   ((\<exists>p \<in> set (scores_of (py_lower q)). snd p > 0) \<longrightarrow>
      (\<exists>pre n post. scores_of (py_lower q) = pre @ (detect_task_type q, n) # post \<and>
          (\<forall>p \<in> set pre. snd p < n) \<and> (\<forall>p \<in> set post. snd p \<le> n))) \<and>
   (py_lower q' = py_lower q \<longrightarrow> detect_task_type q' = detect_task_type q) \<and>
   detect_task_type ''write a python function'' = CODE \<and>
   detect_task_type ''what is the capital of France'' = FACTUAL \<and>
   detect_task_type ''hello'' = GENERAL"
proof -
  have cnt: "\<forall>t ps. (t, ps) \<in> set task_patterns \<longrightarrow>
      (t, length (filter (\<lambda>pattern. rx_search False pattern (py_lower q) \<noteq> None) ps))
        \<in> set (scores_of (py_lower q))"
    by (force simp: scores_of_def score_def)
  have ci: "py_lower q' = py_lower q \<longrightarrow> detect_task_type q' = detect_task_type q"
    by (simp add: detect_task_type_def)
  have e1: "detect_task_type ''write a python function'' = CODE" by code_simp
  have e2: "detect_task_type ''what is the capital of France'' = FACTUAL" by code_simp
  have e3: "detect_task_type ''hello'' = GENERAL" by code_simp
  from scores_of_order cnt detect_task_type_general detect_task_type_winner ci e1 e2 e3
  show ?thesis by (intro conjI impI) blast+
qed

theorem detect_task_type_rule_witness:
  "detect_task_type ''Write a Python function'' = CODE \<and>
   (\<exists>pre n post. scores_of (py_lower ''Write a Python function'') = pre @ (CODE, n) # post)"
proof -
  have sc: "scores_of (py_lower ''Write a Python function'') =
     [(RESEARCH, 0), (CODE, 1), (MATH, 0), (CREATIVE, 1), (FACTUAL, 0), (SYSTEM, 0)]"
    by code_simp
  have lo: "py_lower ''write a python function'' = py_lower ''Write a Python function''"
    by code_simp
  have ex: "\<exists>p \<in> set (scores_of (py_lower ''Write a Python function'')). snd p > 0"
    unfolding sc by simp
  note r = detect_task_type_rule[of "''Write a Python function''" "''write a python function''"]
  from r have ci: "py_lower ''write a python function'' = py_lower ''Write a Python function'' \<longrightarrow>
      detect_task_type ''write a python function'' = detect_task_type ''Write a Python function''"
    by blast
  from r have c: "detect_task_type ''write a python function'' = CODE" by blast
  from ci lo c have d: "detect_task_type ''Write a Python function'' = CODE" by simp
  from r have "(\<exists>p \<in> set (scores_of (py_lower ''Write a Python function'')). snd p > 0) \<longrightarrow>
      (\<exists>pre n post. scores_of (py_lower ''Write a Python function'') =
          pre @ (detect_task_type ''Write a Python function'', n) # post \<and>
          (\<forall>p \<in> set pre. snd p < n) \<and> (\<forall>p \<in> set post. snd p \<le> n))" by blast
  with ex obtain pre n post where
    "scores_of (py_lower ''Write a Python function'') =
       pre @ (detect_task_type ''Write a Python function'', n) # post" by blast
  with d show ?thesis by auto
qed

section \<open>Properties of the intent parser guard and the privilege session\<close>

text \<open>
  Claim C9. \<open>parse_intent\<close> returns \<open>None\<close>, without raising, for the empty string and
  for every argument that is not a string; no intent is built for such an argument.
\<close>

theorem parse_intent_empty_or_not_string:
  "v = PyStr [] \<or> (\<forall>s. v \<noteq> PyStr s) \<Longrightarrow> parse_intent v = Inr None"
  by (cases v) (auto simp: parse_intent_def)

theorem parse_intent_empty_or_not_string_witness:
  "parse_intent (PyStr []) = Inr None \<and> parse_intent (PyInt 5) = Inr None \<and>
   parse_intent (PyList [PyStr ''run ls'']) = Inr None \<and> parse_intent PyNone = Inr None"
  using parse_intent_empty_or_not_string[of "PyStr []"]
    parse_intent_empty_or_not_string[of "PyInt 5"]
    parse_intent_empty_or_not_string[of "PyList [PyStr ''run ls'']"]
    parse_intent_empty_or_not_string[of PyNone]
  by simp




lemma TimedSession_is_valid_active:
  "is_active s \<Longrightarrow> t \<le> end_time s \<Longrightarrow> TimedSession_is_valid s t = (True, s)"
  by (simp add: TimedSession_is_valid_def)

lemma SudoSession_activate_refused:
  assumes "active s" and "session_start s = Some st"
    and "t1 - st \<le> timedelta_seconds (duration_seconds s)"
  shows "SudoSession_activate s t1 t2 = (False, s)"
  using assms by (simp add: SudoSession_activate_def SudoSession_is_valid_def)




lemma main_manager_constructed:
  "EnhancedSecurityManager_init main_config loaded = Inr main_manager"
  by (simp add: EnhancedSecurityManager_init_def main_config_def main_manager_def)

section \<open>Properties of the activation keyword parser\<close>






section \<open>Properties of the command security gate\<close>

lemma lower_range: "65 \<le> (of_char c :: nat) \<Longrightarrow> of_char c \<le> (222::nat) \<Longrightarrow>
   (of_char (char_of ((of_char c :: nat) + 32)) :: nat) = of_char c + 32"
  by simp

lemma py_isspace_lower: "py_isspace (py_lower_char c) = py_isspace c"
proof (cases "(65 \<le> (of_char c :: nat) \<and> (of_char c :: nat) \<le> 90) \<or>
     (192 \<le> (of_char c :: nat) \<and> (of_char c :: nat) \<le> 222 \<and> (of_char c :: nat) \<noteq> 215)")
  case True
  then have r: "65 \<le> (of_char c :: nat)" "(of_char c :: nat) \<le> 222" by auto
  have l: "py_lower_char c = char_of ((of_char c :: nat) + 32)"
    unfolding py_lower_char_def Let_def by (rule if_P) (rule True)
  have "(of_char (py_lower_char c) :: nat) = of_char c + 32"
    unfolding l by (rule lower_range[OF r])
  with True show ?thesis by (auto simp add: py_isspace_def Let_def)
next
  case False
  have "py_lower_char c = c"
    unfolding py_lower_char_def Let_def by (rule if_not_P) (rule False)
  then show ?thesis by simp
qed

lemma py_strip_decomp: "\<exists>a b. s = a @ py_strip s @ b"
proof -
  let ?u = "dropWhile py_isspace s"
  have "s = takeWhile py_isspace s @ ?u" by simp
  moreover have "rev ?u = takeWhile py_isspace (rev ?u) @ dropWhile py_isspace (rev ?u)" by simp
  then have "?u = rev (dropWhile py_isspace (rev ?u)) @ rev (takeWhile py_isspace (rev ?u))"
    by (metis rev_append rev_rev_ident)
  ultimately have "s = takeWhile py_isspace s @ py_strip s @ rev (takeWhile py_isspace (rev ?u))"
    by (simp add: py_strip_def)
  then show ?thesis by blast
qed

lemma py_strip_last: "py_strip s \<noteq> [] \<Longrightarrow> \<not> py_isspace (last (py_strip s))"
  unfolding py_strip_def by (simp add: last_rev hd_dropWhile)

lemma py_strip_nonblank: "(\<exists>c \<in> set s. \<not> py_isspace c) \<Longrightarrow> py_strip s \<noteq> []"
proof -
  assume "\<exists>c \<in> set s. \<not> py_isspace c"
  then have u: "dropWhile py_isspace s \<noteq> []" by (simp add: dropWhile_eq_Nil_conv)
  then have "\<not> py_isspace (hd (dropWhile py_isspace s))" by (rule hd_dropWhile)
  moreover have "hd (dropWhile py_isspace s) \<in> set (rev (dropWhile py_isspace s))" using u by simp
  ultimately have "dropWhile py_isspace (rev (dropWhile py_isspace s)) \<noteq> []"
    by (auto simp: dropWhile_eq_Nil_conv)
  then show ?thesis by (simp add: py_strip_def)
qed

lemma py_strip_strip_nonblank: "py_strip s \<noteq> [] \<Longrightarrow> py_strip (py_strip s) \<noteq> []"
proof -
  assume n: "py_strip s \<noteq> []"
  then have "\<not> py_isspace (last (py_strip s))" by (rule py_strip_last)
  moreover have "last (py_strip s) \<in> set (py_strip s)" using n by simp
  ultimately show ?thesis by (intro py_strip_nonblank) blast
qed

lemma starts_with_append: "starts_with s w \<Longrightarrow> \<exists>r. s = w @ r"
  by (induction s w rule: starts_with.induct) auto

lemma split_aux_word:
  assumes "\<forall>x \<in> set w. \<not> py_isspace x" and "py_isspace c" and "w \<noteq> [] \<or> acc \<noteq> []"
  shows "split_aux acc (w @ c # rest) = rev (rev w @ acc) # split_aux [] rest"
  using assms by (induction w arbitrary: acc) auto

lemma py_split_first:
  assumes "\<forall>x \<in> set w. \<not> py_isspace x" and "py_isspace c" and "w \<noteq> []"
  shows "py_split (w @ c # rest) = w # py_split rest"
  using split_aux_word[of w c "[]" rest] assms by (simp add: py_split_def)

lemma shell_action_nonblank:
  assumes L: "py_strip (py_lower text) = kw @ c # rest" and c: "py_isspace c"
  shows "py_strip (drop (length kw + 1) text) \<noteq> []"
proof -
  let ?L = "py_strip (py_lower text)"
  have ne: "?L \<noteq> []" using L by simp
  then have nl: "\<not> py_isspace (last ?L)" by (rule py_strip_last)
  have rne: "rest \<noteq> []"
  proof
    assume "rest = []"
    with L have "last ?L = c" by simp
    with nl c show False by simp
  qed
  then have lr: "last ?L = last rest" using L by simp
  obtain a b where d: "py_lower text = a @ ?L @ b" using py_strip_decomp by blast
  have dl: "\<And>n (xs::string) ys. n \<le> length xs \<Longrightarrow> drop n (xs @ ys) = drop n xs @ ys"
    by simp
  have e1: "py_lower text = (a @ kw @ [c]) @ (rest @ b)" using d L by simp
  have e2: "drop (length kw + 1) ((a @ kw @ [c]) @ (rest @ b)) =
      drop (length kw + 1) (a @ kw @ [c]) @ rest @ b" by (rule dl) simp
  from e1 e2 have "drop (length kw + 1) (py_lower text) =
      drop (length kw + 1) (a @ kw @ [c]) @ rest @ b" by (simp only:)
  then have "last rest \<in> set (drop (length kw + 1) (py_lower text))" using rne by simp
  then have "last rest \<in> py_lower_char ` set (drop (length kw + 1) text)"
    by (simp add: py_lower_def drop_map)
  then obtain x where x: "x \<in> set (drop (length kw + 1) text)" "py_lower_char x = last rest"
    by auto
  with nl lr have "\<not> py_isspace x" using py_isspace_lower[of x] by simp
  with x(1) show ?thesis by (intro py_strip_nonblank) blast
qed

lemma shell_prefix_split:
  assumes "starts_with L (kw @ '' '')" and "\<forall>x \<in> set kw. \<not> py_isspace x" and "kw \<noteq> []"
  shows "\<exists>r. L = kw @ CHR '' '' # r \<and> py_split L = kw # py_split r"
proof -
  from starts_with_append[OF assms(1)] obtain r where r: "L = kw @ CHR '' '' # r" by auto
  have sp: "py_isspace CHR '' ''" by code_simp
  from py_split_first[OF assms(2) sp assms(3), of r] r show ?thesis by blast
qed

lemma parse_file_not_shell: "parse_file t l = Some i \<Longrightarrow> intent_type i \<noteq> ''shell''"
  by (auto simp: parse_file_def parse_download_def parse_app_def parse_click_def parse_scroll_def
      parse_type_def CommandIntent_init_def split: option.splits if_splits)

lemma shell_intent_action:
  assumes p: "parse_intent (PyStr text) = Inr (Some i)" and sh: "intent_type i = ''shell''"
  shows "action i \<noteq> [] \<and> py_strip (action i) \<noteq> []"
proof -
  let ?L = "py_strip (py_lower text)"
  have ne: "text \<noteq> []" using p by (auto simp: parse_intent_def)
  have pre: "starts_with ?L ''run '' \<or> starts_with ?L ''execute '' \<or> starts_with ?L ''shell ''"
  proof (rule ccontr)
    assume "\<not> ?thesis"
    with p ne have "parse_file text ?L = Some i" by (simp add: parse_intent_def Let_def)
    with sh parse_file_not_shell show False by blast
  qed
  have w1: "\<forall>x \<in> set ''run''. \<not> py_isspace x" by code_simp
  have w2: "\<forall>x \<in> set ''execute''. \<not> py_isspace x" by code_simp
  have w3: "\<forall>x \<in> set ''shell''. \<not> py_isspace x" by code_simp
  have gen: "\<exists>kw r. ?L = kw @ CHR '' '' # r \<and> py_split ?L = kw # py_split r"
    if "starts_with ?L (kw @ '' '')" and "\<forall>x \<in> set kw. \<not> py_isspace x" and "kw \<noteq> []" for kw
    using shell_prefix_split[OF that] by blast
  have "\<exists>kw r. ?L = kw @ CHR '' '' # r \<and> py_split ?L = kw # py_split r"
    using pre
  proof (elim disjE)
    assume "starts_with ?L ''run ''"
    then have "starts_with ?L (''run'' @ '' '')" by simp
    from gen[OF this w1] show ?thesis by simp
  next
    assume "starts_with ?L ''execute ''"
    then have "starts_with ?L (''execute'' @ '' '')" by simp
    from gen[OF this w2] show ?thesis by simp
  next
    assume "starts_with ?L ''shell ''"
    then have "starts_with ?L (''shell'' @ '' '')" by simp
    from gen[OF this w3] show ?thesis by simp
  qed
  then obtain kw r where L: "?L = kw @ CHR '' '' # r" and s: "py_split ?L = kw # py_split r"
    by blast
  from p ne pre s have a: "action i = py_strip (drop (length kw + 1) text)"
    by (auto simp: parse_intent_def Let_def CommandIntent_init_def)
  have sp: "py_isspace CHR '' ''" by code_simp
  from shell_action_nonblank[OF L sp] have "py_strip (drop (length kw + 1) text) \<noteq> []" .
  with a py_strip_strip_nonblank show ?thesis by simp
qed

lemma check_command_dangerous:
  assumes "is_dangerous chk command" and "command \<noteq> []" and "py_strip command \<noteq> []"
  shows "check_command chk command sudo_active =
           (if sudo_active then (True, ''Allowed under sudo session'')
            else (False, ''Command contains dangerous keywords and sudo not active''))"
  using assms by (simp add: check_command_def)

lemma execute_shell_ran:
  assumes "fst (execute_shell ex cmd now) = Ran cmd2"
  shows "cmd2 = cmd \<and> allow_system_commands ex \<and>
         fst (check_command (security_checker ex) cmd (fst (SudoSession_is_valid (sudo_session ex) now)))"
  using assms
  by (auto simp: execute_shell_def Let_def split: if_splits prod.splits)

lemma execute_with_sudo_dangerous:
  assumes "list_ex (\<lambda>d. py_in (py_lower d) (py_lower command)) (dangerous_commands m)"
  shows "fst (execute_with_sudo m command t) \<noteq> Ran argv"
  using assms
  by (auto simp: execute_with_sudo_def is_sudo_active_def check_dangerous_command_def Let_def
      split: option.splits prod.splits if_splits)


text \<open>
  Claim C1, as stated, fails. The text \<open>run rm -rf /tmp/x\<close> parses to a shell intent
  whose action contains the dangerous keyword \<open>rm -rf\<close>. Without a session
  \<open>check_command\<close> denies it with a fixed reason that does not contain the keyword and
  is the same for a command that matches \<open>mkfs\<close>; and \<open>execute_with_sudo\<close> refuses the
  action although the session is active at the check.
\<close>

theorem dangerous_gate_counterexample:
  "parse_intent (PyStr ''run rm -rf /tmp/x'') =
     Inr (Some \<lparr>intent_type = ''shell'', action = ''rm -rf /tmp/x'', params = []\<rparr>) \<and>
   py_in (py_lower ''rm -rf'') (py_lower ''rm -rf /tmp/x'') \<and>
   check_command (SecurityChecker_init None) ''rm -rf /tmp/x'' False =
     (False, ''Command contains dangerous keywords and sudo not active'') \<and>
   \<not> py_in ''rm -rf'' ''Command contains dangerous keywords and sudo not active'' \<and>
   check_command (SecurityChecker_init None) ''mkfs /dev/sda1'' False =
     (False, ''Command contains dangerous keywords and sudo not active'') \<and>
   fst (is_sudo_active
     (main_manager\<lparr>current_session := Some \<lparr>start_time = 0, duration = 300000000,
        end_time = 300000000, is_active = True\<rparr>\<rparr>) 1000000) \<and>
   fst (execute_with_sudo
     (main_manager\<lparr>current_session := Some \<lparr>start_time = 0, duration = 300000000,
        end_time = 300000000, is_active = True\<rparr>\<rparr>) ''rm -rf /tmp/x'' 1000000) =
     Refused (warning_sign @ '' WARNING: This command is potentially dangerous!'' @ [CHR 0x0A]
        @ ''Command: rm -rf /tmp/x'' @ [CHR 0x0A, CHR 0x0A]
        @ ''This command will NOT be executed for safety reasons.'')"
  by code_simp

text \<open>
  Claim C1, amended. For every parsed intent of type shell whose action contains a
  dangerous keyword of the checker, \<open>check_command\<close> returns allowed with the reason
  \<open>Allowed under sudo session\<close> when the session is reported active, and denied with
  the fixed reason \<open>Command contains dangerous keywords and sudo not active\<close>, which
  does not name the keyword, when it is not. \<open>_execute_shell\<close>, with system commands
  enabled, runs such an action exactly when the session is valid at the reading of the
  check; and it runs any command only when system commands are enabled and
  \<open>check_command\<close> allowed it. \<open>execute_with_sudo\<close> of the enhanced manager never runs
  an action that contains one of its dangerous commands, with or without a session.
\<close>

theorem dangerous_shell_intent_gate:
  assumes p: "parse_intent (PyStr text) = Inr (Some i)" and sh: "intent_type i = ''shell''"
    and dg: "is_dangerous chk (action i)"
  shows "check_command chk (action i) True = (True, ''Allowed under sudo session'') \<and>
         check_command chk (action i) False =
           (False, ''Command contains dangerous keywords and sudo not active'') \<and>
         (security_checker ex = chk \<and> allow_system_commands ex \<longrightarrow>
            fst (execute_shell ex (action i) now) =
              (if fst (SudoSession_is_valid (sudo_session ex) now) then Ran (action i)
               else Refused ''Command contains dangerous keywords and sudo not active'')) \<and>
         (fst (execute_shell ex2 cmd now2) = Ran cmd2 \<longrightarrow>
            cmd2 = cmd \<and> allow_system_commands ex2 \<and>
            fst (check_command (security_checker ex2) cmd
                   (fst (SudoSession_is_valid (sudo_session ex2) now2)))) \<and>
         (list_ex (\<lambda>d. py_in (py_lower d) (py_lower (action i))) (dangerous_commands m) \<longrightarrow>
            fst (execute_with_sudo m (action i) t) \<noteq> Ran argv)"
proof -
  from shell_intent_action[OF p sh] have ne: "action i \<noteq> []" "py_strip (action i) \<noteq> []"
    by simp_all
  note cc = check_command_dangerous[OF dg ne]
  have a: "check_command chk (action i) True = (True, ''Allowed under sudo session'')"
    using cc[of True] by simp
  have b: "check_command chk (action i) False =
           (False, ''Command contains dangerous keywords and sudo not active'')"
    using cc[of False] by simp
  have c: "security_checker ex = chk \<and> allow_system_commands ex \<longrightarrow>
            fst (execute_shell ex (action i) now) =
              (if fst (SudoSession_is_valid (sudo_session ex) now) then Ran (action i)
               else Refused ''Command contains dangerous keywords and sudo not active'')"
    using cc by (auto simp: execute_shell_def Let_def split: prod.splits)
  have d: "fst (execute_shell ex2 cmd now2) = Ran cmd2 \<longrightarrow>
            cmd2 = cmd \<and> allow_system_commands ex2 \<and>
            fst (check_command (security_checker ex2) cmd
                   (fst (SudoSession_is_valid (sudo_session ex2) now2)))"
    using execute_shell_ran by blast
  have e: "list_ex (\<lambda>d. py_in (py_lower d) (py_lower (action i))) (dangerous_commands m) \<longrightarrow>
            fst (execute_with_sudo m (action i) t) \<noteq> Ran argv"
    using execute_with_sudo_dangerous by blast
  from a b c d e show ?thesis by (intro conjI)
qed

theorem dangerous_shell_intent_gate_witness:
  "check_command (SecurityChecker_init None) ''rm -rf /tmp/x'' True =
     (True, ''Allowed under sudo session'') \<and>
   fst (execute_shell (CommandExecutor_init (Some True) None None) ''rm -rf /tmp/x'' 5) =
     Refused ''Command contains dangerous keywords and sudo not active'' \<and>
   fst (execute_shell
     ((CommandExecutor_init (Some True) None None)
        \<lparr>sudo_session := \<lparr>duration_seconds = 300, session_start = Some 0, active = True\<rparr>\<rparr>)
     ''rm -rf /tmp/x'' 5) = Ran ''rm -rf /tmp/x'' \<and>
   fst (execute_with_sudo main_manager ''rm -rf /tmp/x'' 5) \<noteq> Ran [''sudo'', ''rm'', ''-rf'', ''/tmp/x'']"
proof -
  let ?i = "\<lparr>intent_type = ''shell'', action = ''rm -rf /tmp/x'', params = []\<rparr>"
  let ?ex = "CommandExecutor_init (Some True) None None"
  let ?ex1 = "?ex\<lparr>sudo_session := \<lparr>duration_seconds = 300, session_start = Some 0, active = True\<rparr>\<rparr>"
  have p: "parse_intent (PyStr ''run rm -rf /tmp/x'') = Inr (Some ?i)" by code_simp
  have sh: "intent_type ?i = ''shell''" by simp
  have dg: "is_dangerous (SecurityChecker_init None) (action ?i)" by code_simp
  have e0: "security_checker ?ex = SecurityChecker_init None \<and> allow_system_commands ?ex"
    by (simp add: CommandExecutor_init_def SecurityChecker_init_def)
  have e1: "security_checker ?ex1 = SecurityChecker_init None \<and> allow_system_commands ?ex1"
    by (simp add: CommandExecutor_init_def SecurityChecker_init_def)
  have v0: "\<not> fst (SudoSession_is_valid (sudo_session ?ex) 5)"
    by (simp add: CommandExecutor_init_def SudoSession_init_def SudoSession_is_valid_def)
  have v1: "fst (SudoSession_is_valid (sudo_session ?ex1) 5)"
    by (simp add: SudoSession_is_valid_def timedelta_seconds_def)
  have dm: "list_ex (\<lambda>d. py_in (py_lower d) (py_lower (action ?i))) (dangerous_commands main_manager)"
    by code_simp
  note g0 = dangerous_shell_intent_gate[OF p sh dg, of ?ex 5 ?ex "''x''" 0 "''y''" main_manager 5
      "[''sudo'', ''rm'', ''-rf'', ''/tmp/x'']"]
  note g1 = dangerous_shell_intent_gate[OF p sh dg, of ?ex1 5 ?ex "''x''" 0 "''y''" main_manager 5
      "[''sudo'', ''rm'', ''-rf'', ''/tmp/x'']"]
  have r1: "check_command (SecurityChecker_init None) ''rm -rf /tmp/x'' True =
     (True, ''Allowed under sudo session'')" using g0 by simp
  have r2: "fst (execute_shell ?ex ''rm -rf /tmp/x'' 5) =
     Refused ''Command contains dangerous keywords and sudo not active''"
    using g0 e0 v0 by simp
  have r3: "fst (execute_shell ?ex1 ''rm -rf /tmp/x'' 5) = Ran ''rm -rf /tmp/x''"
    using g1 e1 v1 by simp
  have r4: "fst (execute_with_sudo main_manager ''rm -rf /tmp/x'' 5) \<noteq> Ran [''sudo'', ''rm'', ''-rf'', ''/tmp/x'']"
    using g0 dm by simp
  from r1 r2 r3 r4 show ?thesis by (intro conjI)
qed

end
